theory Spec2Isabelle
  imports Complex_Main
begin

section \<open>Scoring a trained CNTK model with PySpark: the notebook's functions\<close>

text \<open>
  The notebook \<^verbatim>\<open>CNTK_model_scoring_on_Spark_walkthrough.ipynb\<close> defines three
  functions (\<^verbatim>\<open>reshape_image\<close>, \<^verbatim>\<open>get_preprocessed_image\<close>, \<^verbatim>\<open>run_worker\<close>)
  and three cells of top-level code that matter here: the mean-image setup, the accuracy
  report and the confusion matrix. Each is embedded below under its own name. The calls
  into numpy, pandas and scikit-learn are embedded by what the library computes on the
  values the notebook passes; the trained model and the floating-point arithmetic are
  parameters.
\<close>

subsection \<open>Exceptions\<close>

text \<open>
  The exceptions the embedded code can raise: numpy's and scikit-learn's
  \<^verbatim>\<open>ValueError\<close>, Python's \<^verbatim>\<open>ZeroDivisionError\<close> and \<^verbatim>\<open>KeyError\<close>, and
  \<^verbatim>\<open>RuntimeError\<close> for what the external model loader may raise.
\<close>

datatype py_error = ValueError | ZeroDivisionError | KeyError | RuntimeError

subsection \<open>numpy arrays with three axes\<close>

text \<open>
  An array with three axes is its shape and its elements in C order (the last axis
  varies fastest), which is how numpy lays out the result of \<^verbatim>\<open>reshape\<close> and of
  \<^verbatim>\<open>ascontiguousarray\<close>.
\<close>

record 'a ndarray3 =
  shape :: "nat \<times> nat \<times> nat"
  flat :: "'a list"

text \<open>\<^verbatim>\<open>t[i, j, k]\<close> for indices within the shape.\<close>

definition item3 :: "'a ndarray3 \<Rightarrow> nat \<Rightarrow> nat \<Rightarrow> nat \<Rightarrow> 'a" where
  "item3 t i j k = (case shape t of (a, b, c) \<Rightarrow> flat t ! ((i * b + j) * c + k))"

text \<open>The array of a given shape whose element at \<open>(i, j, k)\<close> is \<open>f i j k\<close>.\<close>

definition from_index3 :: "nat \<times> nat \<times> nat \<Rightarrow> (nat \<Rightarrow> nat \<Rightarrow> nat \<Rightarrow> 'a) \<Rightarrow> 'a ndarray3" where
  "from_index3 s f = (case s of (a, b, c) \<Rightarrow>
     \<lparr>shape = s, flat = map (\<lambda>n. f (n div (b * c)) (n div c mod b) (n mod c)) [0..<a * b * c]\<rparr>)"

text \<open>
  \<^verbatim>\<open>xs.reshape(a, b, c)\<close> of a one-dimensional array: the same elements in the same
  order, and \<^verbatim>\<open>ValueError\<close> when the number of elements is not \<open>a * b * c\<close>.
\<close>

definition reshape_flat :: "nat \<times> nat \<times> nat \<Rightarrow> 'a list \<Rightarrow> py_error + 'a ndarray3" where
  "reshape_flat s xs = (case s of (a, b, c) \<Rightarrow>
     if length xs = a * b * c then Inr \<lparr>shape = s, flat = xs\<rparr> else Inl ValueError)"

text \<open>\<^verbatim>\<open>t.transpose(1, 2, 0)\<close>: the result at \<open>(i, j, k)\<close> is \<open>t[k, i, j]\<close>.\<close>

definition transpose_120 :: "'a ndarray3 \<Rightarrow> 'a ndarray3" where
  "transpose_120 t = (case shape t of (a, b, c) \<Rightarrow> from_index3 (b, c, a) (\<lambda>i j k. item3 t k i j))"

text \<open>\<^verbatim>\<open>t.transpose(2, 0, 1)\<close>: the result at \<open>(i, j, k)\<close> is \<open>t[j, k, i]\<close>.\<close>

definition transpose_201 :: "'a ndarray3 \<Rightarrow> 'a ndarray3" where
  "transpose_201 t = (case shape t of (a, b, c) \<Rightarrow> from_index3 (c, a, b) (\<lambda>i j k. item3 t j k i))"

text \<open>\<^verbatim>\<open>t[:, :, ::-1]\<close>: the last axis reversed.\<close>

definition reverse_last_axis :: "'a ndarray3 \<Rightarrow> 'a ndarray3" where
  "reverse_last_axis t = (case shape t of (a, b, c) \<Rightarrow>
     from_index3 (a, b, c) (\<lambda>i j k. item3 t i j (c - 1 - k)))"

text \<open>\<^verbatim>\<open>t.astype(dtype)\<close>, the conversion of one element being \<open>cast\<close>.\<close>

definition astype :: "('a \<Rightarrow> 'b) \<Rightarrow> 'a ndarray3 \<Rightarrow> 'b ndarray3" where
  "astype cast t = \<lparr>shape = shape t, flat = map cast (flat t)\<rparr>"

text \<open>
  \<^verbatim>\<open>x -= y\<close> on arrays with three axes. numpy broadcasts \<open>y\<close> to the shape of \<open>x\<close>:
  each axis of \<open>y\<close> has the length of the same axis of \<open>x\<close>, or length 1 and is then
  repeated. Any other shape raises \<^verbatim>\<open>ValueError\<close>. The subtraction of one element
  is \<open>sub\<close>.
\<close>

definition isubtract :: "('f \<Rightarrow> 'd \<Rightarrow> 'f) \<Rightarrow> 'f ndarray3 \<Rightarrow> 'd ndarray3 \<Rightarrow> py_error + 'f ndarray3" where
  "isubtract sub x y = (case shape x of (a, b, c) \<Rightarrow> (case shape y of (a', b', c') \<Rightarrow>
     if (a' = a \<or> a' = 1) \<and> (b' = b \<or> b' = 1) \<and> (c' = c \<or> c' = 1)
     then Inr (from_index3 (a, b, c) (\<lambda>i j k.
            sub (item3 x i j k)
                (item3 y (if a' = 1 then 0 else i) (if b' = 1 then 0 else j) (if c' = 1 then 0 else k))))
     else Inl ValueError))"

text \<open>
  \<^verbatim>\<open>np.argmax\<close> of a one-dimensional array: the scan keeps the first position of
  the largest value seen (a later element replaces it only when strictly greater), and
  an empty array raises \<^verbatim>\<open>ValueError\<close>. Scores are values of a linear order, so
  NaN is outside the model.
\<close>

fun argmax_scan :: "'s::linorder list \<Rightarrow> nat \<Rightarrow> nat \<Rightarrow> 's \<Rightarrow> nat" where
  "argmax_scan [] i max_ind mp = max_ind"
| "argmax_scan (x # xs) i max_ind mp =
     (if x > mp then argmax_scan xs (Suc i) i x else argmax_scan xs (Suc i) max_ind mp)"

definition argmax :: "'s::linorder list \<Rightarrow> py_error + nat" where
  "argmax xs = (case xs of [] \<Rightarrow> Inl ValueError | x # rest \<Rightarrow> Inr (argmax_scan rest 1 0 x))"

subsection \<open>Record Reshaper: \<^verbatim>\<open>reshape_image\<close>\<close>

text \<open>
  \<^verbatim>\<open>
  def reshape_image(record):
      image, label, filename = record
      return image.reshape(3,32,32).transpose(1,2,0), label, filename
  \<close>
\<close>

definition reshape_image :: "'p list \<times> int \<times> string \<Rightarrow> py_error + ('p ndarray3 \<times> int \<times> string)" where
  "reshape_image record = (case record of (img, label, filename) \<Rightarrow>
     (case reshape_flat (3, 32, 32) img of
        Inl e \<Rightarrow> Inl e
      | Inr t \<Rightarrow> Inr (transpose_120 t, label, filename)))"

text \<open>
  Flattening an image tensor back into a channel-major buffer, the way
  \<^verbatim>\<open>reshape_image\<close> read it: \<^verbatim>\<open>t.transpose(2,0,1).reshape(3072)\<close>. The notebook
  has no such function; it is the inverse that the round-trip property speaks of.
\<close>

definition reflatten_image :: "'p ndarray3 \<Rightarrow> 'p list" where
  "reflatten_image t = flat (transpose_201 t)"

subsection \<open>Mean image setup\<close>

text \<open>
  \<^verbatim>\<open>
  mean_image = [float(i) for i in mean_image.find('MeanImg').find('data').text.strip().split(' ')]
  mean_image = np.array(mean_image).reshape((32, 32, 3)).transpose((2, 0, 1))
  mean_image_bc = sc.broadcast(mean_image)
  \<close>
  The argument is the list of numbers read from the file.
\<close>

definition mean_image_setup :: "'d list \<Rightarrow> py_error + 'd ndarray3" where
  "mean_image_setup vals = (case reshape_flat (32, 32, 3) vals of
     Inl e \<Rightarrow> Inl e
   | Inr t \<Rightarrow> Inr (transpose_201 t))"

subsection \<open>Image Preprocessor: \<^verbatim>\<open>get_preprocessed_image\<close>\<close>

text \<open>
  \<^verbatim>\<open>
  def get_preprocessed_image(my_image, mean_image):
      my_image = my_image.astype(np.float32)
      bgr_image = my_image[:, :, ::-1] # RGB -> BGR
      image_data = np.ascontiguousarray(np.transpose(bgr_image, (2, 0, 1)))
      image_data -= mean_image
      return(image_data)
  \<close>
  The conversion to \<^verbatim>\<open>float32\<close> and the subtraction of a mean value from a
  \<^verbatim>\<open>float32\<close> are the parameters \<open>to_float32\<close> and \<open>sub\<close>.
\<close>

definition get_preprocessed_image ::
  "('p \<Rightarrow> 'f) \<Rightarrow> ('f \<Rightarrow> 'd \<Rightarrow> 'f) \<Rightarrow> 'p ndarray3 \<Rightarrow> 'd ndarray3 \<Rightarrow> py_error + 'f ndarray3" where
  "get_preprocessed_image to_float32 sub my_image mean_image =
     (let my_image = astype to_float32 my_image;
          bgr_image = reverse_last_axis my_image;
          image_data = transpose_201 bgr_image
      in isubtract sub image_data mean_image)"

subsection \<open>Partition Scorer: \<^verbatim>\<open>run_worker\<close>\<close>

text \<open>
  What a worker reads from outside the function: the outcome of
  \<^verbatim>\<open>load_model(SparkFiles.get('./model.dnn'))\<close>, the evaluation of a loaded model
  (\<^verbatim>\<open>np.squeeze(loaded_model.eval(...))\<close>, a vector of scores), the broadcast mean
  image, and the two floating-point operations.
\<close>

record ('m, 'p, 'f, 'd, 's) worker_env =
  load_model :: "py_error + 'm"
  model_eval :: "'m \<Rightarrow> 'f ndarray3 \<Rightarrow> 's list"
  mean_image_bc :: "'d ndarray3"
  to_float32 :: "'p \<Rightarrow> 'f"
  fsub :: "'f \<Rightarrow> 'd \<Rightarrow> 'f"

text \<open>The calls a worker makes to the model runtime, in program order.\<close>

datatype runtime_call = LoadModel | EvalModel

text \<open>
  \<^verbatim>\<open>run_worker\<close> is a generator. A run is what a consumer that drains it observes:
  the values yielded, in order; the exception that ended the iteration, if any; and the
  calls made to the model runtime.
\<close>

record worker_run =
  yielded :: "(int \<times> nat) list"
  raised :: "py_error option"
  calls :: "runtime_call list"

text \<open>
  The loop of \<^verbatim>\<open>run_worker\<close>:
  \<^verbatim>\<open>
  for record in records:
      preprocessed_image = get_preprocessed_image(record[0], mean_image)
      dnn_output = loaded_model.eval({loaded_model.arguments[0]: [preprocessed_image]})
      yield record[1], np.argmax(np.squeeze(dnn_output))
  \<close>
  \<^verbatim>\<open>records\<close> is the iterator Spark hands to the worker; the notebook builds it
  lazily with \<^verbatim>\<open>image_rdd.map(reshape_image)\<close>, so that pulling the next record may
  raise. An element \<open>Inl e\<close> of the list is a pull that raises \<open>e\<close>.
\<close>

fun score_records ::
  "('m, 'p, 'f, 'd, 's::linorder) worker_env \<Rightarrow> 'm \<Rightarrow> 'd ndarray3 \<Rightarrow>
   (py_error + ('p ndarray3 \<times> int \<times> string)) list \<Rightarrow> worker_run" where
  "score_records env loaded_model mean_image [] =
     \<lparr>yielded = [], raised = None, calls = []\<rparr>"
| "score_records env loaded_model mean_image (pull # rest) =
     (case pull of
        Inl e \<Rightarrow> \<lparr>yielded = [], raised = Some e, calls = []\<rparr>
      | Inr record \<Rightarrow>
          (case get_preprocessed_image (to_float32 env) (fsub env) (fst record) mean_image of
             Inl e \<Rightarrow> \<lparr>yielded = [], raised = Some e, calls = []\<rparr>
           | Inr preprocessed_image \<Rightarrow>
               (let dnn_output = model_eval env loaded_model preprocessed_image in
                case argmax dnn_output of
                  Inl e \<Rightarrow> \<lparr>yielded = [], raised = Some e, calls = [EvalModel]\<rparr>
                | Inr k \<Rightarrow>
                    (let r = score_records env loaded_model mean_image rest in
                     \<lparr>yielded = (fst (snd record), k) # yielded r,
                      raised = raised r,
                      calls = EvalModel # calls r\<rparr>))))"

text \<open>
  \<^verbatim>\<open>
  def run_worker(records):
      loaded_model = load_model(SparkFiles.get('./model.dnn'))
      mean_image = mean_image_bc.value
      for record in records: ...
  \<close>
\<close>

definition run_worker ::
  "('m, 'p, 'f, 'd, 's::linorder) worker_env \<Rightarrow>
   (py_error + ('p ndarray3 \<times> int \<times> string)) list \<Rightarrow> worker_run" where
  "run_worker env records =
     (case load_model env of
        Inl e \<Rightarrow> \<lparr>yielded = [], raised = Some e, calls = [LoadModel]\<rparr>
      | Inr loaded_model \<Rightarrow>
          (let mean_image = mean_image_bc env;
               r = score_records env loaded_model mean_image records
           in r\<lparr>calls := LoadModel # calls r\<rparr>))"

subsection \<open>Accuracy Aggregator\<close>

text \<open>
  \<^verbatim>\<open>
  num_correct = sum(df['true_label'] == df['predicted_label'])
  num_total = len(results)
  print('... ({:0.2f}%)'.format(num_correct, num_total, 100 * num_correct / num_total))
  \<close>
  The sum adds one for each row whose comparison is true. Python's \<^verbatim>\<open>/\<close> on
  integers raises \<^verbatim>\<open>ZeroDivisionError\<close> for a zero divisor; its value is the exact
  quotient here, the rounding to a float and to two decimals being left out.
\<close>

definition num_correct :: "(int \<times> int) list \<Rightarrow> int" where
  "num_correct results = sum_list (map (\<lambda>(t, p). if t = p then 1 else 0) results)"

definition num_total :: "(int \<times> int) list \<Rightarrow> int" where
  "num_total results = int (length results)"

definition true_divide :: "int \<Rightarrow> int \<Rightarrow> py_error + rat" where
  "true_divide x y = (if y = 0 then Inl ZeroDivisionError else Inr (of_int x / of_int y))"

definition accuracy_percent :: "(int \<times> int) list \<Rightarrow> py_error + rat" where
  "accuracy_percent results = true_divide (100 * num_correct results) (num_total results)"

text \<open>
  \<^verbatim>\<open>Series.unique()\<close>: the distinct values in order of first appearance.
\<close>

definition unique :: "'a list \<Rightarrow> 'a list" where
  "unique xs = rev (remdups (rev xs))"

text \<open>
  scikit-learn's \<^verbatim>\<open>confusion_matrix(y_true, y_pred, labels=labels)\<close>: it raises
  \<^verbatim>\<open>ValueError\<close> when no label occurs in \<^verbatim>\<open>y_true\<close>; it maps each value to its
  position in \<^verbatim>\<open>labels\<close> (a dictionary built from \<^verbatim>\<open>enumerate(labels)\<close>, a later
  position of a label overriding an earlier one), drops the samples whose true or
  predicted value is not a label, and adds one at (true position, predicted position)
  for every sample kept.
\<close>

definition label_to_ind :: "int list \<Rightarrow> int \<rightharpoonup> nat" where
  "label_to_ind labels = map_of (rev (zip labels [0..<length labels]))"

definition add_sample :: "nat list list \<Rightarrow> nat \<times> nat \<Rightarrow> nat list list" where
  "add_sample cm s = (case s of (t, p) \<Rightarrow> cm[t := (cm ! t)[p := cm ! t ! p + 1]])"

definition confusion_matrix :: "int list \<Rightarrow> int list \<Rightarrow> int list \<Rightarrow> py_error + nat list list" where
  "confusion_matrix y_true y_pred labels =
     (if list_all (\<lambda>l. l \<notin> set y_true) labels then Inl ValueError
      else
        (let n_labels = length labels;
             ind = (\<lambda>x. case label_to_ind labels x of None \<Rightarrow> n_labels + 1 | Some i \<Rightarrow> i);
             samples = filter (\<lambda>(t, p). p < n_labels \<and> t < n_labels)
                         (zip (map ind y_true) (map ind y_pred))
         in Inr (foldl add_sample (replicate n_labels (replicate n_labels 0)) samples)))"

text \<open>
  \<^verbatim>\<open>
  label_to_name_dict = {0: 'airplane', 1: 'automobile', 2: 'bird', 3: 'cat', 4: 'deer',
                        5: 'dog', 6: 'frog', 7: 'horse', 8: 'ship', 9: 'truck'}
  \<close>
\<close>

definition label_to_name_dict :: "int \<rightharpoonup> string" where
  "label_to_name_dict = map_of
     [(0, ''airplane''), (1, ''automobile''), (2, ''bird''), (3, ''cat''), (4, ''deer''),
      (5, ''dog''), (6, ''frog''), (7, ''horse''), (8, ''ship''), (9, ''truck'')]"

text \<open>
  \<^verbatim>\<open>[label_to_name_dict[i] for i in labels]\<close>: the names in the order of the labels;
  the first label that is not a key of the dictionary raises \<^verbatim>\<open>KeyError\<close>.
\<close>

fun named_labels :: "int list \<Rightarrow> py_error + string list" where
  "named_labels [] = Inr []"
| "named_labels (i # labels) =
     (case label_to_name_dict i of
        None \<Rightarrow> Inl KeyError
      | Some name \<Rightarrow>
          (case named_labels labels of
             Inl e \<Rightarrow> Inl e
           | Inr names \<Rightarrow> Inr (name # names)))"

text \<open>
  \<^verbatim>\<open>
  labels = np.sort(df['true_label'].unique())
  named_labels = [label_to_name_dict[i] for i in labels]
  cm = confusion_matrix(df['true_label'], df['predicted_label'], labels=labels)
  \<close>
  The data frame is the list of its rows (true label, predicted label). The value is the
  matrix \<^verbatim>\<open>cm\<close>, or the exception that ends the cell before the matrix is built.
\<close>

definition cm_labels :: "(int \<times> int) list \<Rightarrow> int list" where
  "cm_labels df = sort (unique (map fst df))"

definition cm :: "(int \<times> int) list \<Rightarrow> py_error + nat list list" where
  "cm df =
     (let labels = cm_labels df in
      case named_labels labels of
        Inl e \<Rightarrow> Inl e
      | Inr names \<Rightarrow> confusion_matrix (map fst df) (map snd df) labels)"

subsection \<open>Example inputs\<close>

text \<open>
  A worker environment with a model that always returns the same ten scores (the largest
  score, 3, is at indices 1 and 3) and an all-zero mean image of shape (3, 32, 32); the
  same with a loader that fails; the same with a mean image of shape (3, 2, 2), which
  cannot be broadcast to an image of shape (3, 32, 32), and with one of shape (3, 1, 1),
  which can; and a small environment on one-pixel images whose model returns the
  preprocessed pixel as its scores.
\<close>

definition demo_env :: "(unit, nat, int, int, int) worker_env" where
  "demo_env = \<lparr>load_model = Inr (),
                model_eval = (\<lambda>m t. [0, 3, 1, 3, 0, 0, 0, 0, 0, 0]),
                mean_image_bc = \<lparr>shape = (3, 32, 32), flat = replicate 3072 0\<rparr>,
                to_float32 = int,
                fsub = (\<lambda>x y. x - y)\<rparr>"

definition failing_env :: "(unit, nat, int, int, int) worker_env" where
  "failing_env = demo_env\<lparr>load_model := Inl RuntimeError\<rparr>"



definition pixel_env :: "(unit, nat, int, int, int) worker_env" where
  "pixel_env = \<lparr>load_model = Inr (),
                 model_eval = (\<lambda>m t. flat t),
                 mean_image_bc = \<lparr>shape = (3, 1, 1), flat = [0, 0, 0]\<rparr>,
                 to_float32 = int,
                 fsub = (\<lambda>x y. x - y)\<rparr>"

definition pixel_records :: "(py_error + (nat ndarray3 \<times> int \<times> string)) list" where
  "pixel_records = [Inr (\<lparr>shape = (1, 1, 3), flat = [1, 5, 2]\<rparr>, 42, ''a.png''),
                    Inr (\<lparr>shape = (1, 1, 3), flat = [9, 5, 2]\<rparr>, - 1, ''b.png'')]"

section \<open>Index arithmetic and the array operations\<close>

lemma flat_index_bound:
  fixes i j k a b c :: nat
  assumes "i < a" "j < b" "k < c"
  shows "(i * b + j) * c + k < a * b * c"
proof -
  have "i * b + j < a * b"
  proof -
    have "i * b + j < i * b + b" using assms by simp
    also have "\<dots> = (Suc i) * b" by simp
    also have "\<dots> \<le> a * b" using assms by (intro mult_le_mono1) simp
    finally show ?thesis .
  qed
  then have "(i * b + j) * c + k < (i * b + j) * c + c" using assms by simp
  also have "\<dots> = Suc (i * b + j) * c" by simp
  also have "\<dots> \<le> (a * b) * c" using \<open>i * b + j < a * b\<close> by (intro mult_le_mono1) simp
  finally show ?thesis .
qed

lemma flat_index_decode:
  fixes i j k b c :: nat
  assumes "j < b" "k < c"
  shows "((i * b + j) * c + k) div (b * c) = i"
    and "((i * b + j) * c + k) div c mod b = j"
    and "((i * b + j) * c + k) mod c = k"
proof -
  have dc: "((i * b + j) * c + k) div c = i * b + j" using assms by simp
  show "((i * b + j) * c + k) mod c = k" using assms by simp
  show "((i * b + j) * c + k) div c mod b = j" using assms dc by simp
  have "((i * b + j) * c + k) div (b * c) = ((i * b + j) * c + k) div c div b"
    by (subst mult.commute) (rule div_mult2_eq)
  then show "((i * b + j) * c + k) div (b * c) = i" using assms dc by simp
qed

lemma flat_index_encode:
  fixes n b c :: nat
  shows "(n div (b * c) * b + n div c mod b) * c + n mod c = n"
proof -
  have "n div (b * c) = n div c div b" by (subst mult.commute) (rule div_mult2_eq)
  then have "n div (b * c) * b + n div c mod b = n div c" by simp
  then show ?thesis by simp
qed

lemma div_bound3:
  fixes n a b c :: nat
  assumes "n < a * b * c"
  shows "n div (b * c) < a" and "0 < b" and "0 < c"
proof -
  show "0 < b" using assms by (cases b) auto
  show "0 < c" using assms by (cases c) auto
  show "n div (b * c) < a" using assms by (simp add: less_mult_imp_div_less mult.assoc)
qed

lemma shape_from_index3 [simp]: "shape (from_index3 s f) = s"
  by (cases s) (simp add: from_index3_def)

lemma length_flat_from_index3 [simp]:
  "length (flat (from_index3 (a, b, c) f)) = a * b * c"
  by (simp add: from_index3_def)

lemma item3_from_index3:
  assumes "i < a" "j < b" "k < c"
  shows "item3 (from_index3 (a, b, c) f) i j k = f i j k"
  using assms flat_index_bound[OF assms]
  by (simp add: item3_def from_index3_def flat_index_decode)

lemma flat_from_index3_nth:
  assumes "n < a * b * c"
  shows "flat (from_index3 (a, b, c) f) ! n = f (n div (b * c)) (n div c mod b) (n mod c)"
  using assms by (simp add: from_index3_def)


lemma shape_transpose_120:
  "shape t = (a, b, c) \<Longrightarrow> shape (transpose_120 t) = (b, c, a)"
  by (simp add: transpose_120_def)

lemma shape_transpose_201:
  "shape t = (a, b, c) \<Longrightarrow> shape (transpose_201 t) = (c, a, b)"
  by (simp add: transpose_201_def)

lemma item3_transpose_120:
  assumes "shape t = (a, b, c)" "i < b" "j < c" "k < a"
  shows "item3 (transpose_120 t) i j k = item3 t k i j"
  using assms by (simp add: transpose_120_def item3_from_index3)

lemma item3_transpose_201:
  assumes "shape t = (a, b, c)" "i < c" "j < a" "k < b"
  shows "item3 (transpose_201 t) i j k = item3 t j k i"
  using assms by (simp add: transpose_201_def item3_from_index3)

lemma flat_transpose_201_120:
  assumes sh: "shape t = (a, b, c)" and len: "length (flat t) = a * b * c"
  shows "flat (transpose_201 (transpose_120 t)) = flat t"
proof (rule nth_equalityI)
  have sh': "shape (transpose_120 t) = (b, c, a)"
    using sh by (rule shape_transpose_120)
  show "length (flat (transpose_201 (transpose_120 t))) = length (flat t)"
    using sh' len by (simp add: transpose_201_def)
next
  fix n
  assume "n < length (flat (transpose_201 (transpose_120 t)))"
  have sh': "shape (transpose_120 t) = (b, c, a)"
    using sh by (rule shape_transpose_120)
  from \<open>n < length (flat (transpose_201 (transpose_120 t)))\<close>
  have n: "n < a * b * c"
    using sh' by (simp add: transpose_201_def)
  define i where "i = n div (b * c)"
  define j where "j = n div c mod b"
  define k where "k = n mod c"
  have bnd: "i < a" "0 < b" "0 < c"
    using div_bound3[OF n] by (simp_all add: i_def)
  then have jk: "j < b" "k < c" by (simp_all add: j_def k_def)
  have "flat (transpose_201 (transpose_120 t)) ! n = item3 (transpose_120 t) j k i"
    using n sh' by (simp add: transpose_201_def flat_from_index3_nth i_def j_def k_def)
  also have "\<dots> = item3 t i j k"
    using sh jk bnd by (simp add: item3_transpose_120)
  also have "\<dots> = flat t ! n"
    using sh by (simp add: item3_def i_def j_def k_def flat_index_encode)
  finally show "flat (transpose_201 (transpose_120 t)) ! n = flat t ! n" .
qed

lemma reshape_flat_ok:
  "length xs = a * b * c \<Longrightarrow> reshape_flat (a, b, c) xs = Inr \<lparr>shape = (a, b, c), flat = xs\<rparr>"
  by (simp add: reshape_flat_def)

lemma reshape_flat_bad:
  "length xs \<noteq> a * b * c \<Longrightarrow> reshape_flat (a, b, c) xs = Inl ValueError"
  by (simp add: reshape_flat_def)

lemma reshape_image_ok:
  assumes "length buf = 3072"
  shows "reshape_image (buf, l, f) = Inr (transpose_120 \<lparr>shape = (3, 32, 32), flat = buf\<rparr>, l, f)"
  using assms by (simp add: reshape_image_def reshape_flat_def)

subsection \<open>Record Reshaper\<close>

text \<open>
  Claim C7. For every flat pixel buffer of length 3072 = 32 * 32 * 3, \<^verbatim>\<open>reshape_image\<close>
  returns a tensor of shape (32, 32, 3) in height-width-channel layout whose entry
  \<open>(h, w, c)\<close> is the buffer's entry \<open>c * 1024 + h * 32 + w\<close> (the buffer is read
  channel-major). The mapping is invertible: flattening the tensor back channel-major
  (\<^verbatim>\<open>transpose(2,0,1)\<close>, then the elements in order) gives the original buffer, and no
  other buffer has the same tensor.
\<close>
theorem reshape_image_bijective:
  assumes "length buf = 3072"
  shows "\<exists>t. reshape_image (buf, l, f) = Inr (t, l, f)
           \<and> shape t = (32, 32, 3)
           \<and> length (flat t) = 32 * 32 * 3
           \<and> (\<forall>h<32. \<forall>w<32. \<forall>c<3. item3 t h w c = buf ! (c * 1024 + h * 32 + w))
           \<and> reflatten_image t = buf
           \<and> (\<forall>buf' l' f'. reshape_image (buf', l', f') = Inr (t, l, f) \<longrightarrow> buf' = buf)"
proof -
  let ?r = "\<lparr>shape = (3, 32, 32), flat = buf\<rparr> :: 'a ndarray3"
  let ?t = "transpose_120 ?r"
  have ok: "reshape_image (buf, l, f) = Inr (?t, l, f)"
    using assms by (rule reshape_image_ok)
  have sh: "shape ?t = (32, 32, 3)"
    by (simp add: shape_transpose_120)
  have len: "length (flat ?t) = 32 * 32 * 3"
    by (simp add: transpose_120_def)
  have items: "\<forall>h<32. \<forall>w<32. \<forall>c<3. item3 ?t h w c = buf ! (c * 1024 + h * 32 + w)"
  proof (intro allI impI)
    fix h w c :: nat
    assume "h < 32" "w < 32" "c < 3"
    then have "item3 ?t h w c = item3 ?r c h w"
      by (simp add: item3_transpose_120[where a=3 and b=32 and c=32])
    also have "\<dots> = buf ! (c * 1024 + h * 32 + w)"
      by (simp add: item3_def algebra_simps)
    finally show "item3 ?t h w c = buf ! (c * 1024 + h * 32 + w)" .
  qed
  have rt: "reflatten_image ?t = buf"
    using assms flat_transpose_201_120[of ?r 3 32 32] by (simp add: reflatten_image_def)
  have inj: "\<forall>buf' l' f'. reshape_image (buf', l', f') = Inr (?t, l, f) \<longrightarrow> buf' = buf"
  proof (intro allI impI)
    fix buf' :: "'a list" and l' f'
    assume eq: "reshape_image (buf', l', f') = Inr (?t, l, f)"
    then have len': "length buf' = 3072"
      by (auto simp: reshape_image_def reshape_flat_def split: if_splits)
    let ?r' = "\<lparr>shape = (3, 32, 32), flat = buf'\<rparr> :: 'a ndarray3"
    from eq len' have "transpose_120 ?r' = ?t"
      by (simp add: reshape_image_ok)
    then have "flat (transpose_201 (transpose_120 ?r')) = flat (transpose_201 ?t)" by simp
    then show "buf' = buf"
      using len' assms flat_transpose_201_120[of ?r' 3 32 32] flat_transpose_201_120[of ?r 3 32 32]
      by simp
  qed
  from ok sh len items rt inj show ?thesis by blast
qed

theorem reshape_image_bijective_witness:
  "length (replicate 3072 (7::nat)) = 3072 \<and>
   (\<exists>t. reshape_image (replicate 3072 (7::nat), 5, ''img.png'') = Inr (t, 5, ''img.png'')
      \<and> shape t = (32, 32, 3) \<and> reflatten_image t = replicate 3072 7)"
  using reshape_image_bijective[of "replicate 3072 (7::nat)" 5 "''img.png''"]
  by auto

text \<open>
  Claim C8. For every flat pixel buffer whose length differs from 3072 (3071, say),
  \<^verbatim>\<open>reshape_image\<close> produces no tensor: it raises (numpy's \<^verbatim>\<open>ValueError\<close>, the
  malformed-record error). Nothing catches it, so a worker whose first pull is such a
  record yields nothing and ends with that exception.
\<close>
theorem reshape_image_wrong_length:
  assumes "length buf \<noteq> 3072"
  shows "reshape_image (buf, l, f) = Inl ValueError
       \<and> (\<forall>loaded_model. load_model env = Inr loaded_model \<longrightarrow>
            yielded (run_worker env (map reshape_image ((buf, l, f) # rest))) = []
          \<and> raised (run_worker env (map reshape_image ((buf, l, f) # rest))) = Some ValueError)"
proof -
  have bad: "reshape_image (buf, l, f) = Inl ValueError"
    using assms by (simp add: reshape_image_def reshape_flat_def)
  then show ?thesis
    by (simp add: run_worker_def)
qed

theorem reshape_image_wrong_length_witness:
  "length (replicate 3071 (0::nat)) \<noteq> 3072
   \<and> reshape_image (replicate 3071 (0::nat), 3, ''cat.png'') = Inl ValueError
   \<and> raised (run_worker
        \<lparr>load_model = Inr (), model_eval = (\<lambda>m t. [0::int]),
         mean_image_bc = \<lparr>shape = (3, 32, 32), flat = replicate 3072 (0::int)\<rparr>,
         to_float32 = int, fsub = (\<lambda>x y. x - y)\<rparr>
        (map reshape_image [(replicate 3071 (0::nat), 3, ''cat.png'')])) = Some ValueError"
  using reshape_image_wrong_length[where buf = "replicate 3071 (0::nat)" and l = 3
      and f = "''cat.png''" and rest = "[]"
      and env = "\<lparr>load_model = Inr (), model_eval = (\<lambda>m t. [0::int]),
         mean_image_bc = \<lparr>shape = (3, 32, 32), flat = replicate 3072 (0::int)\<rparr>,
         to_float32 = int, fsub = (\<lambda>x y. x - y)\<rparr>"]
  by auto

subsection \<open>Image Preprocessor\<close>

lemma shape_astype [simp]: "shape (astype cast t) = shape t"
  by (simp add: astype_def)

lemma item3_astype:
  assumes "shape t = (a, b, c)" "length (flat t) = a * b * c" "i < a" "j < b" "k < c"
  shows "item3 (astype cast t) i j k = cast (item3 t i j k)"
  using assms flat_index_bound[of i a j b k c]
  by (simp add: item3_def astype_def)

lemma shape_reverse_last_axis:
  "shape t = (a, b, c) \<Longrightarrow> shape (reverse_last_axis t) = (a, b, c)"
  by (simp add: reverse_last_axis_def)

lemma item3_reverse_last_axis:
  assumes "shape t = (a, b, c)" "i < a" "j < b" "k < c"
  shows "item3 (reverse_last_axis t) i j k = item3 t i j (c - 1 - k)"
  using assms by (simp add: reverse_last_axis_def item3_from_index3)

lemma isubtract_same_shape:
  assumes "shape x = (a, b, c)" "shape y = (a, b, c)"
  shows "\<exists>out. isubtract sub x y = Inr out \<and> shape out = (a, b, c)
           \<and> length (flat out) = a * b * c
           \<and> (\<forall>i<a. \<forall>j<b. \<forall>k<c. item3 out i j k = sub (item3 x i j k) (item3 y i j k))"
proof -
  let ?out = "from_index3 (a, b, c) (\<lambda>i j k.
            sub (item3 x i j k)
                (item3 y (if a = 1 then 0 else i) (if b = 1 then 0 else j) (if c = 1 then 0 else k)))"
  have "isubtract sub x y = Inr ?out"
    using assms by (simp add: isubtract_def)
  moreover have "\<forall>i<a. \<forall>j<b. \<forall>k<c. item3 ?out i j k = sub (item3 x i j k) (item3 y i j k)"
    by (auto simp: item3_from_index3)
  ultimately show ?thesis by simp
qed


lemma bgr_chw_item:
  assumes sh: "shape my_image = (H, W, C)" and len: "length (flat my_image) = H * W * C"
    and "c < C" "h < H" "w < W"
  shows "item3 (transpose_201 (reverse_last_axis (astype cast my_image))) c h w
       = cast (item3 my_image h w (C - 1 - c))"
proof -
  let ?f = "astype cast my_image"
  have shf: "shape ?f = (H, W, C)" using sh by simp
  have shr: "shape (reverse_last_axis ?f) = (H, W, C)"
    using shf by (rule shape_reverse_last_axis)
  have "item3 (transpose_201 (reverse_last_axis ?f)) c h w = item3 (reverse_last_axis ?f) h w c"
    using shr assms(3-5) by (simp add: item3_transpose_201)
  also have "\<dots> = item3 ?f h w (C - 1 - c)"
    using shf assms(3-5) by (simp add: item3_reverse_last_axis)
  also have "\<dots> = cast (item3 my_image h w (C - 1 - c))"
    using sh len assms(3-5) by (simp add: item3_astype)
  finally show ?thesis .
qed

lemma preprocess_matching_shapes:
  assumes sh: "shape my_image = (H, W, C)" and len: "length (flat my_image) = H * W * C"
    and shm: "shape mean_image = (C, H, W)"
  shows "\<exists>out. get_preprocessed_image cast sub my_image mean_image = Inr out
           \<and> shape out = (C, H, W)
           \<and> length (flat out) = C * H * W
           \<and> (\<forall>c<C. \<forall>h<H. \<forall>w<W.
                 item3 out c h w = sub (cast (item3 my_image h w (C - 1 - c))) (item3 mean_image c h w))"
proof -
  let ?x = "transpose_201 (reverse_last_axis (astype cast my_image))"
  have "shape (reverse_last_axis (astype cast my_image)) = (H, W, C)"
    using sh by (simp add: shape_reverse_last_axis)
  then have shx: "shape ?x = (C, H, W)"
    by (rule shape_transpose_201)
  from isubtract_same_shape[OF shx shm, of sub]
  obtain out where out: "isubtract sub ?x mean_image = Inr out" "shape out = (C, H, W)"
      "length (flat out) = C * H * W"
      "\<forall>i<C. \<forall>j<H. \<forall>k<W. item3 out i j k = sub (item3 ?x i j k) (item3 mean_image i j k)"
    by blast
  have "get_preprocessed_image cast sub my_image mean_image = Inr out"
    using out(1) by (simp add: get_preprocessed_image_def)
  moreover have "\<forall>c<C. \<forall>h<H. \<forall>w<W.
       item3 out c h w = sub (cast (item3 my_image h w (C - 1 - c))) (item3 mean_image c h w)"
    using out(4) bgr_chw_item[OF sh len, of _ _ _ cast] by simp
  ultimately show ?thesis using out(2,3) by blast
qed

text \<open>
  Claim C6. For every input tensor in (H, W, C) layout and every mean image of the
  matching shape (C, H, W), \<^verbatim>\<open>get_preprocessed_image\<close> returns a tensor in (C, H, W)
  layout whose entry at \<open>(c, h, w)\<close> is the input's entry \<open>(h, w, C - 1 - c)\<close>,
  converted to floating point, minus the mean image's entry \<open>(c, h, w)\<close>: the channel
  axis is reversed, the layout transposed and the mean subtracted element by element.
  The conversion and the subtraction are any functions \<open>cast\<close> and \<open>sub\<close>.
\<close>

theorem get_preprocessed_image_entries:
  assumes sh: "shape my_image = (H, W, C)" and len: "length (flat my_image) = H * W * C"
    and shm: "shape mean_image = (C, H, W)"
  shows "\<exists>out. get_preprocessed_image cast sub my_image mean_image = Inr out
           \<and> shape out = (C, H, W)
           \<and> length (flat out) = C * H * W
           \<and> (\<forall>c<C. \<forall>h<H. \<forall>w<W.
                 item3 out c h w = sub (cast (item3 my_image h w (C - 1 - c))) (item3 mean_image c h w))"
  using sh len shm by (rule preprocess_matching_shapes)

theorem get_preprocessed_image_entries_witness:
  "shape \<lparr>shape = (1, 2, 3), flat = [10, 20, 30, 40, 50, 60 :: nat]\<rparr> = (1, 2, 3)
   \<and> length (flat \<lparr>shape = (1, 2, 3), flat = [10, 20, 30, 40, 50, 60 :: nat]\<rparr>) = 1 * 2 * 3
   \<and> shape \<lparr>shape = (3, 1, 2), flat = [1, 2, 3, 4, 5, 6 :: int]\<rparr> = (3, 1, 2)
   \<and> (\<exists>out. get_preprocessed_image int (\<lambda>x y. x - y)
          \<lparr>shape = (1, 2, 3), flat = [10, 20, 30, 40, 50, 60 :: nat]\<rparr>
          \<lparr>shape = (3, 1, 2), flat = [1, 2, 3, 4, 5, 6 :: int]\<rparr> = Inr out
        \<and> shape out = (3, 1, 2)
        \<and> item3 out 2 0 1 = 34
        \<and> out = \<lparr>shape = (3, 1, 2), flat = [29, 58, 17, 46, 5, 34]\<rparr>)"
proof -
  let ?img = "\<lparr>shape = (1, 2, 3), flat = [10, 20, 30, 40, 50, 60 :: nat]\<rparr>"
  let ?mean = "\<lparr>shape = (3, 1, 2), flat = [1, 2, 3, 4, 5, 6 :: int]\<rparr>"
  have ev: "get_preprocessed_image int (\<lambda>x y. x - y) ?img ?mean
      = Inr \<lparr>shape = (3, 1, 2), flat = [29, 58, 17, 46, 5, 34]\<rparr>"
    by code_simp
  have h: "shape ?img = (1, 2, 3)" "length (flat ?img) = 1 * 2 * 3" "shape ?mean = (3, 1, 2)"
    by simp_all
  from get_preprocessed_image_entries[OF h, of int "\<lambda>x y. x - y"]
  obtain out where out: "get_preprocessed_image int (\<lambda>x y. x - y) ?img ?mean = Inr out"
      "shape out = (3, 1, 2)"
      "\<forall>c<3. \<forall>h<1. \<forall>w<2. item3 out c h w = int (item3 ?img h w (3 - 1 - c)) - item3 ?mean c h w"
    by blast
  from out(3) have "item3 out 2 0 1 = int (item3 ?img 0 1 (3 - 1 - 2)) - item3 ?mean 2 0 1"
    by simp
  then have "item3 out 2 0 1 = 34"
    by (simp add: item3_def)
  moreover have "out = \<lparr>shape = (3, 1, 2), flat = [29, 58, 17, 46, 5, 34]\<rparr>"
    using out(1) ev by simp
  ultimately show ?thesis using out(1,2) by simp
qed

subsection \<open>Mean image setup\<close>

lemma mean_image_setup_ok:
  assumes "length vals = 3072"
  shows "mean_image_setup vals = Inr (transpose_201 \<lparr>shape = (32, 32, 3), flat = vals\<rparr>)"
  using assms by (simp add: mean_image_setup_def reshape_flat_def)

lemma mean_image_setup_shape:
  assumes "mean_image_setup vals = Inr m"
  shows "shape m = (3, 32, 32) \<and> length vals = 3072"
  using assms
  by (auto simp: mean_image_setup_def reshape_flat_def shape_transpose_201 split: if_splits)

lemma reshape_image_shape:
  assumes "reshape_image (buf, l, f) = Inr (img, l', f')"
  shows "shape img = (32, 32, 3) \<and> length (flat img) = 32 * 32 * 3 \<and> l' = l \<and> f' = f
       \<and> length buf = 3072"
  using assms
  by (auto simp: reshape_image_def reshape_flat_def shape_transpose_120 transpose_120_def
      split: if_splits)

subsection \<open>Partition Scorer\<close>

lemma argmax_scan_spec:
  assumes "length ys = i" "best < i" "ys ! best = mp"
    and "\<forall>j<i. ys ! j \<le> mp" "\<forall>j<best. ys ! j < mp"
  shows "argmax_scan xs i best mp < length (ys @ xs)
       \<and> (\<forall>j<length (ys @ xs). (ys @ xs) ! j \<le> (ys @ xs) ! argmax_scan xs i best mp)
       \<and> (\<forall>j<argmax_scan xs i best mp. (ys @ xs) ! j < (ys @ xs) ! argmax_scan xs i best mp)"
  using assms
proof (induction xs arbitrary: ys i best mp)
  case Nil
  then show ?case by simp
next
  case (Cons x xs)
  show ?case
  proof (cases "x > mp")
    case True
    have "argmax_scan xs (Suc i) i x < length ((ys @ [x]) @ xs)
       \<and> (\<forall>j<length ((ys @ [x]) @ xs). ((ys @ [x]) @ xs) ! j \<le> ((ys @ [x]) @ xs) ! argmax_scan xs (Suc i) i x)
       \<and> (\<forall>j<argmax_scan xs (Suc i) i x. ((ys @ [x]) @ xs) ! j < ((ys @ [x]) @ xs) ! argmax_scan xs (Suc i) i x)"
    proof (rule Cons.IH)
      show "length (ys @ [x]) = Suc i" using Cons.prems by simp
      show "i < Suc i" by simp
      show "(ys @ [x]) ! i = x" using Cons.prems(1) by (simp add: nth_append)
      show "\<forall>j<Suc i. (ys @ [x]) ! j \<le> x"
        using Cons.prems True by (auto simp: nth_append less_Suc_eq intro: order.trans less_imp_le)
      show "\<forall>j<i. (ys @ [x]) ! j < x"
        using Cons.prems True by (auto simp: nth_append intro: le_less_trans)
    qed
    then show ?thesis using True by simp
  next
    case False
    have "argmax_scan xs (Suc i) best mp < length ((ys @ [x]) @ xs)
       \<and> (\<forall>j<length ((ys @ [x]) @ xs). ((ys @ [x]) @ xs) ! j \<le> ((ys @ [x]) @ xs) ! argmax_scan xs (Suc i) best mp)
       \<and> (\<forall>j<argmax_scan xs (Suc i) best mp. ((ys @ [x]) @ xs) ! j < ((ys @ [x]) @ xs) ! argmax_scan xs (Suc i) best mp)"
    proof (rule Cons.IH)
      show "length (ys @ [x]) = Suc i" using Cons.prems by simp
      show "best < Suc i" using Cons.prems by simp
      show "(ys @ [x]) ! best = mp" using Cons.prems by (simp add: nth_append)
      show "\<forall>j<Suc i. (ys @ [x]) ! j \<le> mp"
        using Cons.prems False by (auto simp: nth_append less_Suc_eq)
      show "\<forall>j<best. (ys @ [x]) ! j < mp"
        using Cons.prems by (auto simp: nth_append)
    qed
    then show ?thesis using False by simp
  qed
qed

lemma argmax_spec:
  assumes "argmax xs = Inr k"
  shows "k < length xs \<and> (\<forall>j<length xs. xs ! j \<le> xs ! k) \<and> (\<forall>j<k. xs ! j < xs ! k)"
proof (cases xs)
  case Nil
  then show ?thesis using assms by (simp add: argmax_def)
next
  case (Cons x rest)
  then have k: "k = argmax_scan rest 1 0 x"
    using assms by (simp add: argmax_def)
  have "argmax_scan rest 1 0 x < length ([x] @ rest)
       \<and> (\<forall>j<length ([x] @ rest). ([x] @ rest) ! j \<le> ([x] @ rest) ! argmax_scan rest 1 0 x)
       \<and> (\<forall>j<argmax_scan rest 1 0 x. ([x] @ rest) ! j < ([x] @ rest) ! argmax_scan rest 1 0 x)"
    by (rule argmax_scan_spec) simp_all
  then show ?thesis using Cons k by simp
qed

lemma argmax_nonempty:
  assumes "xs \<noteq> []"
  shows "\<exists>k. argmax xs = Inr k"
  using assms by (cases xs) (simp_all add: argmax_def)

lemma score_records_no_load:
  "LoadModel \<notin> set (calls (score_records env m mean pulls))"
  by (induction pulls) (auto simp: Let_def split: sum.splits)


lemma score_records_all_ok:
  assumes "\<forall>p\<in>set pulls. \<exists>rec pre k. p = Inr rec
             \<and> get_preprocessed_image (to_float32 env) (fsub env) (fst rec) mean = Inr pre
             \<and> argmax (model_eval env m pre) = Inr k"
  shows "raised (score_records env m mean pulls) = None
       \<and> length (yielded (score_records env m mean pulls)) = length pulls
       \<and> calls (score_records env m mean pulls) = replicate (length pulls) EvalModel
       \<and> (\<forall>i<length pulls. \<exists>rec pre k. pulls ! i = Inr rec
             \<and> get_preprocessed_image (to_float32 env) (fsub env) (fst rec) mean = Inr pre
             \<and> argmax (model_eval env m pre) = Inr k
             \<and> yielded (score_records env m mean pulls) ! i = (fst (snd rec), k))"
  using assms
proof (induction pulls)
  case Nil
  then show ?case by simp
next
  case (Cons p pulls)
  from Cons.prems obtain rec pre k where p: "p = Inr rec"
      "get_preprocessed_image (to_float32 env) (fsub env) (fst rec) mean = Inr pre"
      "argmax (model_eval env m pre) = Inr k"
    by auto
  have IH: "raised (score_records env m mean pulls) = None
       \<and> length (yielded (score_records env m mean pulls)) = length pulls
       \<and> calls (score_records env m mean pulls) = replicate (length pulls) EvalModel
       \<and> (\<forall>i<length pulls. \<exists>rec pre k. pulls ! i = Inr rec
             \<and> get_preprocessed_image (to_float32 env) (fsub env) (fst rec) mean = Inr pre
             \<and> argmax (model_eval env m pre) = Inr k
             \<and> yielded (score_records env m mean pulls) ! i = (fst (snd rec), k))"
    using Cons.IH Cons.prems by simp
  have step: "score_records env m mean (p # pulls) =
      \<lparr>yielded = (fst (snd rec), k) # yielded (score_records env m mean pulls),
       raised = raised (score_records env m mean pulls),
       calls = EvalModel # calls (score_records env m mean pulls)\<rparr>"
    using p by (simp add: Let_def)
  have "\<forall>i<length (p # pulls). \<exists>rec pre k. (p # pulls) ! i = Inr rec
             \<and> get_preprocessed_image (to_float32 env) (fsub env) (fst rec) mean = Inr pre
             \<and> argmax (model_eval env m pre) = Inr k
             \<and> yielded (score_records env m mean (p # pulls)) ! i = (fst (snd rec), k)"
  proof (intro allI impI)
    fix i assume "i < length (p # pulls)"
    then show "\<exists>rec pre k. (p # pulls) ! i = Inr rec
             \<and> get_preprocessed_image (to_float32 env) (fsub env) (fst rec) mean = Inr pre
             \<and> argmax (model_eval env m pre) = Inr k
             \<and> yielded (score_records env m mean (p # pulls)) ! i = (fst (snd rec), k)"
      using p IH step by (cases i) auto
  qed
  then show ?case using IH step by simp
qed


lemma run_worker_loaded:
  assumes "load_model env = Inr m"
  shows "yielded (run_worker env pulls) = yielded (score_records env m (mean_image_bc env) pulls)"
    and "raised (run_worker env pulls) = raised (score_records env m (mean_image_bc env) pulls)"
    and "calls (run_worker env pulls) = LoadModel # calls (score_records env m (mean_image_bc env) pulls)"
  using assms by (simp_all add: run_worker_def Let_def)

lemma run_worker_load_failed:
  assumes "load_model env = Inl e"
  shows "run_worker env pulls = \<lparr>yielded = [], raised = Some e, calls = [LoadModel]\<rparr>"
  using assms by (simp add: run_worker_def)

lemma count_list_absent: "x \<notin> set xs \<Longrightarrow> count_list xs x = 0"
  by (induction xs) auto

text \<open>
  Claim C4. For every finite sequence of image records (of any length, zero and one
  included), a worker whose model loads, whose mean image has the shape the setup gives
  it and whose model returns ten scores yields exactly one result per record, in the
  order of the input, and ends normally. The result for a record pairs the record's label
  with the index of the largest of the ten scores the model gives for the record's
  preprocessed image; among equal largest scores it is the lowest index.
\<close>

theorem run_worker_one_result_per_record:
  fixes env :: "('m, 'p, 'f, 'd, 's::linorder) worker_env"
  assumes load: "load_model env = Inr m"
    and mean: "shape (mean_image_bc env) = (3, 32, 32)"
    and bufs: "\<forall>b\<in>set raw. length (fst b) = 3072"
    and ten: "\<forall>t. length (model_eval env m t) = 10"
  shows "raised (run_worker env (map reshape_image raw)) = None
       \<and> length (yielded (run_worker env (map reshape_image raw))) = length raw
       \<and> (\<forall>i<length raw. \<exists>img pre k.
             reshape_image (raw ! i) = Inr (img, fst (snd (raw ! i)), snd (snd (raw ! i)))
           \<and> get_preprocessed_image (to_float32 env) (fsub env) img (mean_image_bc env) = Inr pre
           \<and> yielded (run_worker env (map reshape_image raw)) ! i = (fst (snd (raw ! i)), k)
           \<and> k < 10
           \<and> (\<forall>j<10. model_eval env m pre ! j \<le> model_eval env m pre ! k)
           \<and> (\<forall>j<k. model_eval env m pre ! j < model_eval env m pre ! k))"
proof -
  let ?mean = "mean_image_bc env"
  let ?pulls = "map reshape_image raw"
  let ?r = "score_records env m ?mean ?pulls"
  have each: "\<exists>img pre k. reshape_image b = Inr (img, fst (snd b), snd (snd b))
             \<and> get_preprocessed_image (to_float32 env) (fsub env) img ?mean = Inr pre
             \<and> argmax (model_eval env m pre) = Inr k" if "b \<in> set raw" for b
  proof -
    obtain buf l f where b: "b = (buf, l, f)" by (cases b)
    have len: "length buf = 3072" using bufs that b by auto
    let ?img = "transpose_120 \<lparr>shape = (3, 32, 32), flat = buf\<rparr>"
    have r: "reshape_image b = Inr (?img, l, f)"
      using len b by (simp add: reshape_image_ok)
    have sh: "shape ?img = (32, 32, 3)" "length (flat ?img) = 32 * 32 * 3"
      using r b reshape_image_shape by blast+
    from preprocess_matching_shapes[OF sh mean, of "to_float32 env" "fsub env"]
    obtain pre where pre: "get_preprocessed_image (to_float32 env) (fsub env) ?img ?mean = Inr pre"
      by blast
    have "model_eval env m pre \<noteq> []" using ten by (metis length_0_conv zero_neq_numeral)
    then obtain k where "argmax (model_eval env m pre) = Inr k"
      using argmax_nonempty by blast
    then show ?thesis using r pre b by auto
  qed
  have "\<forall>p\<in>set ?pulls. \<exists>rec pre k. p = Inr rec
             \<and> get_preprocessed_image (to_float32 env) (fsub env) (fst rec) ?mean = Inr pre
             \<and> argmax (model_eval env m pre) = Inr k"
  proof
    fix p assume "p \<in> set ?pulls"
    then obtain b where b: "b \<in> set raw" "p = reshape_image b" by auto
    from each[OF b(1)] b(2)
    show "\<exists>rec pre k. p = Inr rec
             \<and> get_preprocessed_image (to_float32 env) (fsub env) (fst rec) ?mean = Inr pre
             \<and> argmax (model_eval env m pre) = Inr k"
      by auto
  qed
  from score_records_all_ok[OF this]
  have ok: "raised ?r = None" "length (yielded ?r) = length ?pulls"
    and items: "\<forall>i<length ?pulls. \<exists>rec pre k. ?pulls ! i = Inr rec
             \<and> get_preprocessed_image (to_float32 env) (fsub env) (fst rec) ?mean = Inr pre
             \<and> argmax (model_eval env m pre) = Inr k
             \<and> yielded ?r ! i = (fst (snd rec), k)"
    by blast+
  have "\<exists>img pre k.
             reshape_image (raw ! i) = Inr (img, fst (snd (raw ! i)), snd (snd (raw ! i)))
           \<and> get_preprocessed_image (to_float32 env) (fsub env) img ?mean = Inr pre
           \<and> yielded ?r ! i = (fst (snd (raw ! i)), k)
           \<and> k < 10
           \<and> (\<forall>j<10. model_eval env m pre ! j \<le> model_eval env m pre ! k)
           \<and> (\<forall>j<k. model_eval env m pre ! j < model_eval env m pre ! k)" if i: "i < length raw" for i
  proof -
    from items i obtain rec pre k where it: "reshape_image (raw ! i) = Inr rec"
        "get_preprocessed_image (to_float32 env) (fsub env) (fst rec) ?mean = Inr pre"
        "argmax (model_eval env m pre) = Inr k"
        "yielded ?r ! i = (fst (snd rec), k)"
      by auto
    obtain buf l f where b: "raw ! i = (buf, l, f)" by (cases "raw ! i")
    obtain img l' f' where rec: "rec = (img, l', f')" by (cases rec)
    have "reshape_image (buf, l, f) = Inr (img, l', f')"
      using it(1) b rec by simp
    from reshape_image_shape[OF this] have same: "l' = l" "f' = f"
      by simp_all
    have am: "k < 10" "\<forall>j<10. model_eval env m pre ! j \<le> model_eval env m pre ! k"
        "\<forall>j<k. model_eval env m pre ! j < model_eval env m pre ! k"
      using argmax_spec[OF it(3)] ten by simp_all
    show ?thesis
      using it b rec same am by auto
  qed
  then show ?thesis
    using ok by (simp add: run_worker_loaded[OF load])
qed

theorem run_worker_one_result_per_record_witness:
  "load_model demo_env = Inr ()
   \<and> shape (mean_image_bc demo_env) = (3, 32, 32)
   \<and> length (replicate 3072 (1::nat)) = 3072
   \<and> length (replicate 3072 (2::nat)) = 3072
   \<and> (\<forall>t. length (model_eval demo_env () t) = 10)
   \<and> raised (run_worker demo_env (map reshape_image
         [(replicate 3072 (1::nat), 7, ''frog.png''), (replicate 3072 (2::nat), 11, ''odd.png'')])) = None
   \<and> length (yielded (run_worker demo_env (map reshape_image
         [(replicate 3072 (1::nat), 7, ''frog.png''), (replicate 3072 (2::nat), 11, ''odd.png'')]))) = 2"
proof -
  have h1: "load_model demo_env = Inr ()" by (simp add: demo_env_def)
  have h2: "shape (mean_image_bc demo_env) = (3, 32, 32)" by (simp add: demo_env_def)
  have h3: "\<forall>b\<in>set [(replicate 3072 (1::nat), 7::int, ''frog.png''), (replicate 3072 (2::nat), 11, ''odd.png'')].
         length (fst b) = 3072" by simp
  have h4: "\<forall>t. length (model_eval demo_env () t) = 10" by (simp add: demo_env_def)
  from run_worker_one_result_per_record[OF h1 h2 h3 h4] h1 h2 h4
  show ?thesis by simp
qed


text \<open>
  Claim C5. Draining \<^verbatim>\<open>run_worker\<close> calls the model loader exactly once, whatever
  the partition holds and however the run ends, never once per record. On an empty
  partition the worker yields nothing and its only call to the runtime is that one load.
\<close>

theorem run_worker_loads_once:
  "count_list (calls (run_worker env pulls)) LoadModel = 1
   \<and> yielded (run_worker env []) = []
   \<and> calls (run_worker env []) = [LoadModel]"
proof (cases "load_model env")
  case (Inl e)
  then show ?thesis by (simp add: run_worker_load_failed)
next
  case (Inr m)
  have "count_list (calls (score_records env m (mean_image_bc env) pulls)) LoadModel = 0"
    using score_records_no_load by (rule count_list_absent)
  then show ?thesis by (simp add: run_worker_loaded[OF Inr])
qed

theorem run_worker_loads_once_witness:
  "count_list (calls (run_worker pixel_env pixel_records)) LoadModel = 1
   \<and> length pixel_records = 2
   \<and> yielded (run_worker pixel_env []) = []
   \<and> calls (run_worker pixel_env []) = [LoadModel]"
  using run_worker_loads_once[of pixel_env pixel_records]
  by (simp add: pixel_records_def)

text \<open>
  Claim C9. When loading the model fails, the worker yields no result for any record of
  the partition, the loader's exception is what the consumer sees, and the loader was
  called once: there is no second attempt.
\<close>

theorem run_worker_load_failure_atomic:
  assumes "load_model env = Inl e"
  shows "yielded (run_worker env pulls) = []
       \<and> raised (run_worker env pulls) = Some e
       \<and> calls (run_worker env pulls) = [LoadModel]"
  using assms by (simp add: run_worker_load_failed)

theorem run_worker_load_failure_atomic_witness:
  "load_model failing_env = Inl RuntimeError
   \<and> yielded (run_worker failing_env (map reshape_image [(replicate 3072 (1::nat), 7, ''frog.png'')])) = []
   \<and> raised (run_worker failing_env (map reshape_image [(replicate 3072 (1::nat), 7, ''frog.png'')]))
       = Some RuntimeError
   \<and> calls (run_worker failing_env (map reshape_image [(replicate 3072 (1::nat), 7, ''frog.png'')]))
       = [LoadModel]"
proof -
  have h: "load_model failing_env = Inl RuntimeError"
    by (simp add: failing_env_def)
  from run_worker_load_failure_atomic[OF h] h show ?thesis by simp
qed



subsection \<open>The mean image in a worker\<close>









subsection \<open>Accuracy Aggregator\<close>

lemma num_correct_count:
  "num_correct results = int (length (filter (\<lambda>(t, p). t = p) results))"
  by (induction results) (auto simp: num_correct_def)

text \<open>
  Claim C1, as the code has it. For every non-empty collection of results the aggregator
  reports \<open>100 * correct_count / total_count\<close>, the accuracy
  \<open>correct_count / total_count\<close> as a percentage; for the empty collection the division
  raises \<^verbatim>\<open>ZeroDivisionError\<close>.
\<close>

theorem accuracy_percent_value:
  "accuracy_percent results =
     (if results = [] then Inl ZeroDivisionError
      else Inr (100 * (of_nat (length (filter (\<lambda>(t, p). t = p) results)) / of_nat (length results))))"
  by (simp add: accuracy_percent_def true_divide_def num_total_def num_correct_count)

theorem accuracy_percent_value_witness:
  "accuracy_percent [(0, 0), (1, 0), (2, 0)] = Inr (100 * (1 / 3))"
  using accuracy_percent_value[of "[(0, 0), (1, 0), (2, 0)]"]
  by simp

text \<open>
  Claim C1 as stated fails on the empty collection: the aggregator does not return 0
  there, it raises.
\<close>

theorem accuracy_empty_raises:
  "accuracy_percent [] = Inl ZeroDivisionError \<and> accuracy_percent [] \<noteq> Inr 0"
  by (simp add: accuracy_percent_def true_divide_def num_total_def)

lemma set_unique [simp]: "set (unique xs) = set xs"
  by (simp add: unique_def)

lemma distinct_unique [simp]: "distinct (unique xs)"
  by (simp add: unique_def)

lemma cm_labels_props:
  "set (cm_labels df) = fst ` set df" "distinct (cm_labels df)" "sorted (cm_labels df)"
  by (simp_all add: cm_labels_def)

lemma label_to_ind_Some:
  assumes "distinct labels"
  shows "label_to_ind labels x = Some i \<longleftrightarrow> i < length labels \<and> labels ! i = x"
proof -
  let ?z = "zip labels [0..<length labels]"
  have d: "distinct (map fst (rev ?z))"
    using assms by (simp add: rev_map[symmetric] del: rev_map)
  have "label_to_ind labels x = Some i \<longleftrightarrow> (x, i) \<in> set (rev ?z)"
    unfolding label_to_ind_def using d by (rule map_of_eq_Some_iff)
  also have "\<dots> \<longleftrightarrow> i < length labels \<and> labels ! i = x"
    by (auto simp: in_set_zip)
  finally show ?thesis .
qed

lemma label_to_ind_None:
  "label_to_ind labels x = None \<longleftrightarrow> x \<notin> set labels"
proof -
  have "map fst (zip labels [0..<length labels]) = labels"
    by (simp add: map_fst_zip)
  then have "fst ` set (rev (zip labels [0..<length labels])) = set labels"
    by (metis set_map set_rev)
  then show ?thesis
    by (simp add: label_to_ind_def map_of_eq_None_iff)
qed

lemma add_sample_dims:
  assumes "length M = n" "\<forall>row\<in>set M. length row = n"
  shows "length (add_sample M s) = n \<and> (\<forall>row\<in>set (add_sample M s). length row = n)"
proof -
  obtain t p where s: "s = (t, p)" by (cases s)
  have "length row = n" if "row \<in> set (M[t := (M ! t)[p := M ! t ! p + 1]])" for row
  proof (cases "t < length M")
    case True
    then have "length (M ! t) = n" using assms(2) by simp
    moreover from that have "row = (M ! t)[p := M ! t ! p + 1] \<or> row \<in> set M"
      using set_update_subset_insert by fastforce
    ultimately show ?thesis using assms(2) by auto
  next
    case False
    then have "M[t := (M ! t)[p := M ! t ! p + 1]] = M" by (intro list_update_beyond) simp
    then show ?thesis using that assms(2) by simp
  qed
  then show ?thesis using assms s by (simp add: add_sample_def)
qed

lemma add_sample_entry:
  assumes "length M = n" "\<forall>row\<in>set M. length row = n" "t < n" "p < n" "i < n" "j < n"
  shows "add_sample M (t, p) ! i ! j = M ! i ! j + (if (t, p) = (i, j) then 1 else 0)"
  using assms by (auto simp: add_sample_def nth_list_update)

lemma foldl_add_sample:
  assumes "length M = n" "\<forall>row\<in>set M. length row = n"
    and "\<forall>s\<in>set samples. fst s < n \<and> snd s < n"
  shows "length (foldl add_sample M samples) = n
       \<and> (\<forall>row\<in>set (foldl add_sample M samples). length row = n)
       \<and> (\<forall>i<n. \<forall>j<n. foldl add_sample M samples ! i ! j = M ! i ! j + count_list samples (i, j))"
  using assms
proof (induction samples arbitrary: M)
  case Nil
  then show ?case by simp
next
  case (Cons s samples)
  obtain t p where s: "s = (t, p)" by (cases s)
  have tp: "t < n" "p < n" using Cons.prems(3) s by auto
  have dims: "length (add_sample M s) = n" "\<forall>row\<in>set (add_sample M s). length row = n"
    using add_sample_dims[OF Cons.prems(1,2)] by blast+
  have rest: "\<forall>s\<in>set samples. fst s < n \<and> snd s < n"
    using Cons.prems(3) by simp
  note IH = Cons.IH[OF dims rest]
  have "foldl add_sample (add_sample M s) samples ! i ! j = M ! i ! j + count_list (s # samples) (i, j)"
    if "i < n" "j < n" for i j
  proof -
    have "foldl add_sample (add_sample M s) samples ! i ! j
          = add_sample M s ! i ! j + count_list samples (i, j)"
      using IH that by blast
    also have "add_sample M s ! i ! j = M ! i ! j + (if (t, p) = (i, j) then 1 else 0)"
      unfolding s using Cons.prems(1,2) tp that by (rule add_sample_entry)
    finally show ?thesis using s by auto
  qed
  then show ?case using IH by simp
qed


lemma zip_map_fst_snd:
  "zip (map f (map fst df)) (map g (map snd df)) = map (\<lambda>r. (f (fst r), g (snd r))) df"
  by (induction df) simp_all

lemma count_list_filter:
  "count_list (filter P xs) x = (if P x then count_list xs x else 0)"
  by (induction xs) auto

lemma count_list_map_at:
  assumes "h x = y" "\<forall>r\<in>set xs. h r = y \<longrightarrow> r = x"
  shows "count_list (map h xs) y = count_list xs x"
  using assms(2)
proof (induction xs)
  case Nil
  then show ?case by simp
next
  case (Cons r xs)
  have IH: "count_list (map h xs) y = count_list xs x"
    using Cons by simp
  have "h r = y \<longleftrightarrow> r = x"
    using Cons.prems assms(1) by auto
  then show ?case using IH by simp
qed

lemma confusion_matrix_entries:
  assumes d: "distinct labels" and ne: "\<exists>l\<in>set labels. l \<in> fst ` set df"
  shows "\<exists>M. confusion_matrix (map fst df) (map snd df) labels = Inr M
       \<and> length M = length labels
       \<and> (\<forall>i<length labels. length (M ! i) = length labels
            \<and> (\<forall>j<length labels. M ! i ! j = count_list df (labels ! i, labels ! j)))"
proof -
  let ?n = "length labels"
  let ?ind = "\<lambda>x. case label_to_ind labels x of None \<Rightarrow> ?n + 1 | Some i \<Rightarrow> i"
  let ?h = "\<lambda>r. (?ind (fst r), ?ind (snd r))"
  let ?P = "\<lambda>(t, p). p < ?n \<and> t < ?n"
  let ?samples = "filter ?P (map ?h df)"
  let ?Z = "replicate ?n (replicate ?n (0::nat))"
  let ?M = "foldl add_sample ?Z ?samples"
  have "\<not> list_all (\<lambda>l. l \<notin> set (map fst df)) labels"
    using ne by (auto simp: list_all_iff)
  then have res: "confusion_matrix (map fst df) (map snd df) labels = Inr ?M"
    unfolding confusion_matrix_def Let_def zip_map_fst_snd by (simp only: if_False)
  have ind_lt: "?ind x = i \<longleftrightarrow> labels ! i = x" if "i < ?n" for x i
  proof (cases "label_to_ind labels x")
    case None
    then have "x \<notin> set labels" by (simp add: label_to_ind_None)
    then show ?thesis using None that by auto
  next
    case (Some k)
    then have "k < ?n" "labels ! k = x"
      using label_to_ind_Some[OF d] by blast+
    then show ?thesis using Some that d by (auto simp: nth_eq_iff_index_eq)
  qed
  have in_range: "\<forall>s\<in>set ?samples. fst s < ?n \<and> snd s < ?n"
    by auto
  from foldl_add_sample[of ?Z ?n ?samples, OF _ _ in_range]
  have dims: "length ?M = ?n" "\<forall>row\<in>set ?M. length row = ?n"
    and ent: "\<forall>i<?n. \<forall>j<?n. ?M ! i ! j = ?Z ! i ! j + count_list ?samples (i, j)"
    by simp_all
  have entry: "?M ! i ! j = count_list df (labels ! i, labels ! j)" if ij: "i < ?n" "j < ?n" for i j
  proof -
    have "?M ! i ! j = count_list ?samples (i, j)"
      using ent ij by simp
    also have "\<dots> = count_list (map ?h df) (i, j)"
      using ij by (simp add: count_list_filter)
    also have "\<dots> = count_list df (labels ! i, labels ! j)"
    proof (rule count_list_map_at)
      show "?h (labels ! i, labels ! j) = (i, j)"
        using ind_lt[OF ij(1)] ind_lt[OF ij(2)] by simp
      show "\<forall>r\<in>set df. ?h r = (i, j) \<longrightarrow> r = (labels ! i, labels ! j)"
        using ind_lt[OF ij(1)] ind_lt[OF ij(2)] by (auto simp: prod_eq_iff)
    qed
    finally show ?thesis .
  qed
  have "\<forall>i<?n. length (?M ! i) = ?n"
    using dims by simp
  with res dims(1) entry show ?thesis by blast
qed

lemma label_to_name_dict_dom:
  "label_to_name_dict l = None \<longleftrightarrow> l < 0 \<or> 9 < l"
proof -
  have "l < 0 \<or> 9 < l \<or> l = 0 \<or> l = 1 \<or> l = 2 \<or> l = 3 \<or> l = 4 \<or> l = 5 \<or> l = 6
        \<or> l = 7 \<or> l = 8 \<or> l = 9"
    by arith
  then show ?thesis
    by (auto simp: label_to_name_dict_def)
qed

lemma named_labels_ok:
  assumes "\<forall>l\<in>set labels. 0 \<le> l \<and> l \<le> 9"
  shows "\<exists>names. named_labels labels = Inr names"
  using assms
proof (induction labels)
  case Nil
  then show ?case by simp
next
  case (Cons i labels)
  then have "label_to_name_dict i \<noteq> None"
    by (simp add: label_to_name_dict_dom)
  then obtain name where "label_to_name_dict i = Some name" by blast
  moreover obtain names where "named_labels labels = Inr names"
    using Cons by auto
  ultimately show ?case by simp
qed

lemma named_labels_key_error:
  assumes "\<exists>l\<in>set labels. l < 0 \<or> 9 < l"
  shows "named_labels labels = Inl KeyError"
  using assms
proof (induction labels)
  case Nil
  then show ?case by simp
next
  case (Cons i labels)
  show ?case
  proof (cases "label_to_name_dict i")
    case None
    then show ?thesis by simp
  next
    case (Some name)
    then have "\<not> (i < 0 \<or> 9 < i)"
      using label_to_name_dict_dom[of i] by simp
    then have "\<exists>l\<in>set labels. l < 0 \<or> 9 < l"
      using Cons.prems by auto
    then have "named_labels labels = Inl KeyError" by (rule Cons.IH)
    then show ?thesis using Some by simp
  qed
qed

text \<open>
  Claim C2, as the code has it. For every non-empty collection of results whose true
  labels all lie in 0..9, the confusion matrix has one row and one column for each
  distinct true label of the collection, in increasing order, and its entry at (row of
  \<open>t\<close>, column of \<open>p\<close>) is the number of results \<open>(t, p)\<close>, zero included. A label
  that never occurs as a true label has no row and no column. A true label outside 0..9
  has no name in \<^verbatim>\<open>label_to_name_dict\<close>: the cell raises \<^verbatim>\<open>KeyError\<close> before the
  matrix is built.
\<close>

theorem confusion_matrix_over_true_labels:
  "(df \<noteq> [] \<and> (\<forall>r\<in>set df. 0 \<le> fst r \<and> fst r \<le> 9) \<longrightarrow>
      (\<exists>M. cm df = Inr M
       \<and> set (cm_labels df) = fst ` set df \<and> distinct (cm_labels df) \<and> sorted (cm_labels df)
       \<and> length M = length (cm_labels df)
       \<and> (\<forall>i<length (cm_labels df). length (M ! i) = length (cm_labels df)
            \<and> (\<forall>j<length (cm_labels df).
                  M ! i ! j = count_list df (cm_labels df ! i, cm_labels df ! j)))))
   \<and> ((\<exists>r\<in>set df. fst r < 0 \<or> 9 < fst r) \<longrightarrow> cm df = Inl KeyError)"
proof (intro conjI impI)
  assume a: "df \<noteq> [] \<and> (\<forall>r\<in>set df. 0 \<le> fst r \<and> fst r \<le> 9)"
  then have "\<forall>l\<in>set (cm_labels df). 0 \<le> l \<and> l \<le> 9"
    by (auto simp: cm_labels_props(1))
  then obtain names where names: "named_labels (cm_labels df) = Inr names"
    using named_labels_ok by blast
  have "set df \<noteq> {}" using a by simp
  then have "\<exists>l\<in>set (cm_labels df). l \<in> fst ` set df"
    by (auto simp: cm_labels_props(1))
  from confusion_matrix_entries[OF cm_labels_props(2) this]
  show "\<exists>M. cm df = Inr M
       \<and> set (cm_labels df) = fst ` set df \<and> distinct (cm_labels df) \<and> sorted (cm_labels df)
       \<and> length M = length (cm_labels df)
       \<and> (\<forall>i<length (cm_labels df). length (M ! i) = length (cm_labels df)
            \<and> (\<forall>j<length (cm_labels df).
                  M ! i ! j = count_list df (cm_labels df ! i, cm_labels df ! j)))"
    using cm_labels_props[of df] names by (simp add: cm_def Let_def)
next
  assume "\<exists>r\<in>set df. fst r < 0 \<or> 9 < fst r"
  then have "\<exists>l\<in>set (cm_labels df). l < 0 \<or> 9 < l"
    by (auto simp: cm_labels_props(1))
  then have "named_labels (cm_labels df) = Inl KeyError"
    by (rule named_labels_key_error)
  then show "cm df = Inl KeyError"
    by (simp add: cm_def Let_def)
qed

theorem confusion_matrix_over_true_labels_witness:
  "cm_labels [(3, 0), (1, 0), (2, 0), (3, 3), (3, 1), (1, 1), (3, 1)] = [1, 2, 3]
   \<and> (\<exists>M. cm [(3, 0), (1, 0), (2, 0), (3, 3), (3, 1), (1, 1), (3, 1)] = Inr M
        \<and> length M = 3 \<and> M ! 2 ! 0 = 2 \<and> M ! 1 ! 1 = 0)
   \<and> cm [(42, 1), (3, 3)] = Inl KeyError"
proof -
  let ?df = "[(3, 0), (1, 0), (2, 0), (3, 3), (3, 1), (1, 1), (3, 1)] :: (int \<times> int) list"
  have l: "cm_labels ?df = [1, 2, 3]"
    by code_simp
  have h: "?df \<noteq> [] \<and> (\<forall>r\<in>set ?df. 0 \<le> fst r \<and> fst r \<le> 9)"
    by simp
  from confusion_matrix_over_true_labels[of ?df] h
  obtain M where M: "cm ?df = Inr M"
      "length M = length (cm_labels ?df)"
      "\<forall>i<length (cm_labels ?df). length (M ! i) = length (cm_labels ?df)
            \<and> (\<forall>j<length (cm_labels ?df).
                  M ! i ! j = count_list ?df (cm_labels ?df ! i, cm_labels ?df ! j))"
    by blast
  have "M ! 2 ! 0 = 2" "M ! 1 ! 1 = 0" "length M = 3"
    using M(2,3) unfolding l by simp_all
  moreover have "cm [(42, 1), (3, 3)] = Inl KeyError"
    using confusion_matrix_over_true_labels[of "[(42, 1), (3, 3)]"] by simp
  ultimately show ?thesis using M(1) l by simp
qed


text \<open>
  Claim C2 as stated fails on the collection holding the single result (0, 0): the
  matrix is one by one, and label 1 (like 2 to 9) has no row.
\<close>

theorem confusion_matrix_misses_absent_labels:
  "cm_labels [(0, 0)] = [0] \<and> cm [(0, 0)] = Inr [[1]] \<and> 1 \<notin> set (cm_labels [(0, 0)])"
  by code_simp

end
